theory Spec2Isabelle
  imports Main "HOL-Library.Word" "HOL-Library.Finite_Map"
begin

unbundle bit_operations_syntax

section \<open>The in-memory file system of \<^verbatim>\<open>myinmemoryfs.cpp\<close>\<close>

text \<open>
  The class \<^verbatim>\<open>MyInMemoryFS\<close> keeps a table \<^verbatim>\<open>files\<close> (a
  \<^verbatim>\<open>std::unordered_map<std::string, MyFsFileInfo>\<close>, keyed by the whole path with its
  leading slash) and a static counter \<^verbatim>\<open>openFilesCount\<close>. Each FUSE callback is
  embedded as a function from the state before the call to an outcome.

  Machine integers are those of an LP64 platform, as the source's own casts to
  \<^verbatim>\<open>unsigned long\<close> presuppose: \<^verbatim>\<open>size_t\<close> and \<^verbatim>\<open>off_t\<close> are 64 bits wide,
  \<^verbatim>\<open>int\<close>, \<^verbatim>\<open>unsigned int\<close>, \<^verbatim>\<open>mode_t\<close>, \<^verbatim>\<open>uid_t\<close> and \<^verbatim>\<open>gid_t\<close> are 32 bits
  wide. A word carries no sign: \<^verbatim>\<open>off_t\<close> is read with \<open>sint\<close>, \<^verbatim>\<open>size_t\<close> with
  \<open>unat\<close> or \<open>uint\<close>, and the order \<open><\<close> on words is the unsigned one.
\<close>

subsection \<open>Types and constants\<close>

type_synonym byte = "8 word"
type_synonym size_t = "64 word"
type_synonym off_t = "64 word"
type_synonym mode_t = "32 word"
type_synonym uid_t = "32 word"
type_synonym gid_t = "32 word"
type_synonym time_t = int

text \<open>The error numbers of \<^verbatim>\<open><errno.h>\<close> (Linux values).\<close>

definition ENOENT :: int where "ENOENT = 2"
definition EEXIST :: int where "EEXIST = 17"
definition EMFILE :: int where "EMFILE = 24"
definition ENOSPC :: int where "ENOSPC = 28"
definition ENAMETOOLONG :: int where "ENAMETOOLONG = 36"

text \<open>
  The file type bits of \<^verbatim>\<open><sys/stat.h>\<close>: \<^verbatim>\<open>S_IFDIR\<close> is octal 0040000 and
  \<^verbatim>\<open>S_IFREG\<close> is octal 0100000. The permission constants of the source are octal too:
  0755 is 493 and 0644 is 420.
\<close>

definition S_IFDIR :: mode_t where "S_IFDIR = 16384"
definition S_IFREG :: mode_t where "S_IFREG = 32768"

text \<open>
  Modelled from the spec: the build-time limits \<^verbatim>\<open>NAME_LENGTH\<close>, \<^verbatim>\<open>NUM_DIR_ENTRIES\<close>
  and \<^verbatim>\<open>NUM_OPEN_FILES\<close> are macros of a header that is not part of the sources. They are
  parameters of the model. \<^verbatim>\<open>NUM_OPEN_FILES\<close> is compared with an \<^verbatim>\<open>unsigned int\<close>, so
  it is taken at that type.
\<close>

record limits =
  NAME_LENGTH :: nat
  NUM_DIR_ENTRIES :: nat
  NUM_OPEN_FILES :: "32 word"

text \<open>
  Modelled from the spec: the struct \<^verbatim>\<open>MyFsFileInfo\<close> is declared in a header that is not
  part of the sources. Its fields are those the source assigns and the spec lists. The field
  \<^verbatim>\<open>size\<close> is a \<^verbatim>\<open>size_t\<close>: \<^verbatim>\<open>std::min(size, files[path].size - offset)\<close> in
  \<^verbatim>\<open>fuseRead\<close> only compiles when both arguments have the type of the parameter
  \<^verbatim>\<open>size\<close>. The fields \<^verbatim>\<open>size\<close> and \<^verbatim>\<open>group\<close> are written \<open>size_f\<close> and
  \<open>group_f\<close>. The field \<^verbatim>\<open>data\<close> points to a heap block; the model keeps the block
  itself, a list with one element for each allocated byte, and the null pointer is the block
  with no byte.
\<close>

record MyFsFileInfo =
  name :: string
  permissions :: mode_t
  owner :: uid_t
  group_f :: gid_t
  size_f :: size_t
  data :: "byte list"
  lastAccess :: time_t
  lastModification :: time_t
  lastStatusChange :: time_t

text \<open>The state of the file system: the table and the static counter.\<close>

record fs =
  files :: "(string, MyFsFileInfo) fmap"
  openFilesCount :: "32 word"

text \<open>The fields of \<^verbatim>\<open>struct stat\<close> that \<^verbatim>\<open>fuseGetattr\<close> assigns.\<close>

record stat =
  st_uid :: uid_t
  st_gid :: gid_t
  st_atime :: time_t
  st_mtime :: time_t
  st_mode :: mode_t
  st_nlink :: nat
  st_size :: off_t

text \<open>
  How a call ends. \<open>Returns r x\<close>: the function returns the \<^verbatim>\<open>int\<close> \<open>r\<close> and leaves
  \<open>x\<close> behind (the new state, the bytes copied out, or the attributes). \<open>Throws x\<close>: a
  C++ exception leaves the function, with \<open>x\<close> as the state at that moment.
  \<open>Undefined\<close>: the call accesses memory outside an allocated block, which is undefined
  behaviour.
\<close>

datatype 'a outcome = Returns (ret: int) (result: 'a) | Throws (thrown: 'a) | Undefined

subsection \<open>Memory\<close>

text \<open>
  What the allocator does is not decided by the program: \<open>grants h n\<close> says whether a
  request for a block of \<open>n\<close> bytes succeeds, and \<open>fresh h i\<close> is the byte found at
  index \<open>i\<close> of newly allocated memory, which nothing initialises.
\<close>

record heap =
  grants :: "nat \<Rightarrow> bool"
  fresh :: "nat \<Rightarrow> byte"

text \<open>
  \<^verbatim>\<open>realloc(p, n)\<close>. When the request succeeds, the new block keeps the first \<open>n\<close>
  bytes of the old one and, when it grows, its new bytes are indeterminate. When the request
  fails, the result is the null pointer, the block with no byte. The source stores the
  result in \<^verbatim>\<open>data\<close> without a test, so after a failure the record holds the null
  pointer together with the new size.
\<close>

definition realloc :: "heap \<Rightarrow> byte list \<Rightarrow> nat \<Rightarrow> byte list" where
  "realloc h p n = (if grants h n then take n p @ map (fresh h) [length p..<n] else [])"

text \<open>
  \<^verbatim>\<open>memmove(p + offset, buf, n)\<close> into the block \<open>p\<close>: defined only when the \<open>n\<close>
  bytes from \<open>offset\<close> on lie inside \<open>p\<close> and \<open>buf\<close> holds \<open>n\<close> bytes.
\<close>

definition memmove_to :: "byte list \<Rightarrow> int \<Rightarrow> byte list \<Rightarrow> nat \<Rightarrow> byte list option" where
  "memmove_to p offset buf n =
     (if 0 \<le> offset \<and> nat offset + n \<le> length p \<and> n \<le> length buf
      then Some (take (nat offset) p @ take n buf @ drop (nat offset + n) p)
      else None)"

text \<open>
  \<^verbatim>\<open>memmove(buf, p + offset, n)\<close> out of the block \<open>p\<close>: the bytes that arrive in
  \<open>buf\<close>, defined only when the \<open>n\<close> bytes from \<open>offset\<close> on lie inside \<open>p\<close>.
\<close>

definition memmove_from :: "byte list \<Rightarrow> int \<Rightarrow> nat \<Rightarrow> byte list option" where
  "memmove_from p offset n =
     (if 0 \<le> offset \<and> nat offset + n \<le> length p
      then Some (take n (drop (nat offset) p))
      else None)"

text \<open>The conversion of a \<^verbatim>\<open>size_t\<close> to the \<^verbatim>\<open>int\<close> that a callback returns.\<close>

definition to_int :: "size_t \<Rightarrow> int" where
  "to_int n = sint (ucast n :: 32 word)"

subsection \<open>Lifecycle: \<^verbatim>\<open>fuseMknod\<close>, \<^verbatim>\<open>fuseUnlink\<close>, \<^verbatim>\<open>fuseRename\<close>\<close>

text \<open>
  \<^verbatim>\<open>path + 1\<close> is the path without its first character (every path the FUSE layer
  passes starts with a slash). \<open>now\<close> is the value of \<^verbatim>\<open>time(NULL)\<close>.
  \<^verbatim>\<open>new MyFsFileInfo()\<close> initialises every field with zero, so the fields that
  \<^verbatim>\<open>fuseMknod\<close> does not assign, \<^verbatim>\<open>owner\<close> and \<^verbatim>\<open>group\<close>, are 0.
  \<^verbatim>\<open>fuseUnlink\<close> frees the block and erases the entry.
\<close>

definition fuseMknod :: "limits \<Rightarrow> time_t \<Rightarrow> fs \<Rightarrow> string \<Rightarrow> mode_t \<Rightarrow> fs outcome" where
  "fuseMknod lim now s path mode =
     (if length (drop 1 path) > NAME_LENGTH lim then Returns (- ENAMETOOLONG) s
      else if fmlookup (files s) path \<noteq> None then Returns (- EEXIST) s
      else if fcard (fmdom (files s)) \<ge> NUM_DIR_ENTRIES lim then Returns (- ENOSPC) s
      else
        let fileInfo = \<lparr>name = drop 1 path, permissions = mode, owner = 0, group_f = 0,
                         size_f = 0, data = [], lastAccess = now, lastModification = now,
                         lastStatusChange = now\<rparr>
        in Returns 0 (s\<lparr>files := fmupd path fileInfo (files s)\<rparr>))"

definition fuseUnlink :: "fs \<Rightarrow> string \<Rightarrow> fs outcome" where
  "fuseUnlink s path =
     (if fmlookup (files s) path = None then Returns (- ENOENT) s
      else Returns 0 (s\<lparr>files := fmdrop path (files s)\<rparr>))"

text \<open>
  \<^verbatim>\<open>files.at(path)\<close> throws \<^verbatim>\<open>std::out_of_range\<close> when the key is absent; by then the
  entry at \<open>newpath\<close> has been erased.
\<close>

definition fuseRename :: "fs \<Rightarrow> string \<Rightarrow> string \<Rightarrow> fs outcome" where
  "fuseRename s path newpath =
     (let files1 = (if fmlookup (files s) newpath \<noteq> None then fmdrop newpath (files s)
                    else files s)
      in case fmlookup files1 path of
           None \<Rightarrow> Throws (s\<lparr>files := files1\<rparr>)
         | Some fileInfo \<Rightarrow>
             Returns 0 (s\<lparr>files :=
               fmdrop path (fmupd newpath (fileInfo\<lparr>name := drop 1 newpath\<rparr>) files1)\<rparr>))"

subsection \<open>Metadata: \<^verbatim>\<open>fuseGetattr\<close>, \<^verbatim>\<open>fuseChmod\<close>, \<^verbatim>\<open>fuseChown\<close>\<close>

text \<open>
  \<open>uid\<close>, \<open>gid\<close> and \<open>now\<close> are the values of \<^verbatim>\<open>getuid()\<close>, \<^verbatim>\<open>getgid()\<close> and
  \<^verbatim>\<open>time(NULL)\<close>. The fields of \<open>statbuf\<close> that no branch assigns keep what the caller
  passed in.
\<close>

definition fuseGetattr :: "uid_t \<Rightarrow> gid_t \<Rightarrow> time_t \<Rightarrow> fs \<Rightarrow> string \<Rightarrow> stat \<Rightarrow> stat outcome" where
  "fuseGetattr uid gid now s path statbuf =
     (let sb = statbuf\<lparr>st_uid := uid, st_gid := gid, st_atime := now, st_mtime := now\<rparr>
      in if path = ''/'' then Returns 0 (sb\<lparr>st_mode := S_IFDIR OR 493, st_nlink := 2\<rparr>)
         else case fmlookup (files s) path of
                Some f \<Rightarrow> Returns 0 (sb\<lparr>st_mode := S_IFREG OR 420, st_nlink := 1,
                                         st_size := size_f f\<rparr>)
              | None \<Rightarrow> Returns (- ENOENT) sb)"

definition fuseChmod :: "fs \<Rightarrow> string \<Rightarrow> mode_t \<Rightarrow> fs outcome" where
  "fuseChmod s path mode =
     (case fmlookup (files s) path of
        Some f \<Rightarrow> Returns 0 (s\<lparr>files := fmupd path (f\<lparr>permissions := mode\<rparr>) (files s)\<rparr>)
      | None \<Rightarrow> Returns (- ENOENT) s)"

definition fuseChown :: "fs \<Rightarrow> string \<Rightarrow> uid_t \<Rightarrow> gid_t \<Rightarrow> fs outcome" where
  "fuseChown s path uid gid =
     (case fmlookup (files s) path of
        None \<Rightarrow> Returns (- ENOENT) s
      | Some f \<Rightarrow>
          let f1 = (if uid \<ge> 0 then f\<lparr>owner := uid\<rparr> else f);
              f2 = (if gid \<ge> 0 then f1\<lparr>group_f := gid\<rparr> else f1)
          in Returns 0 (s\<lparr>files := fmupd path f2 (files s)\<rparr>))"

subsection \<open>Open-file accounting: \<^verbatim>\<open>fuseOpen\<close>, \<^verbatim>\<open>fuseRelease\<close>, \<^verbatim>\<open>fuseInit\<close>\<close>

definition fuseOpen :: "limits \<Rightarrow> fs \<Rightarrow> string \<Rightarrow> fs outcome" where
  "fuseOpen lim s path =
     (if fmlookup (files s) path = None then Returns (- ENOENT) s
      else if openFilesCount s \<ge> NUM_OPEN_FILES lim then Returns (- EMFILE) s
      else Returns 0 (s\<lparr>openFilesCount := openFilesCount s + 1\<rparr>))"

definition fuseRelease :: "fs \<Rightarrow> string \<Rightarrow> fs outcome" where
  "fuseRelease s path =
     (if fmlookup (files s) path = None then Returns (- ENOENT) s
      else if openFilesCount s = 0 then Returns (- ENOENT) s
      else Returns 0 (s\<lparr>openFilesCount := openFilesCount s - 1\<rparr>))"

definition fuseInit :: "fs \<Rightarrow> fs outcome" where
  "fuseInit s = Returns 0 (s\<lparr>openFilesCount := 0\<rparr>)"

subsection \<open>Content: \<^verbatim>\<open>fuseRead\<close>, \<^verbatim>\<open>fuseWrite\<close>, \<^verbatim>\<open>fuseTruncate\<close>\<close>

text \<open>
  The copy length of \<^verbatim>\<open>fuseRead\<close>: \<^verbatim>\<open>files[path].size - offset\<close> is computed at the
  type \<^verbatim>\<open>size_t\<close>, so it wraps around when the offset is beyond the size.
\<close>

definition bytesToCopy :: "size_t \<Rightarrow> size_t \<Rightarrow> off_t \<Rightarrow> size_t" where
  "bytesToCopy size_p fsize offset = min size_p (fsize - offset)"

text \<open>The result of a read is the sequence of bytes that arrive in \<^verbatim>\<open>buf\<close>.\<close>

definition fuseRead :: "fs \<Rightarrow> string \<Rightarrow> size_t \<Rightarrow> off_t \<Rightarrow> byte list outcome" where
  "fuseRead s path size_p offset =
     (case fmlookup (files s) path of
        None \<Rightarrow> Returns (- ENOENT) []
      | Some f \<Rightarrow>
          if size_f f = 0 then Returns 0 []
          else
            (let n = bytesToCopy size_p (size_f f) offset
             in (case memmove_from (data f) (sint offset) (unat n) of
                   None \<Rightarrow> Undefined
                 | Some bs \<Rightarrow> Returns (to_int n) bs)))"

text \<open>
  The first step of \<^verbatim>\<open>fuseWrite\<close>: the block grows when the end of the write, computed
  at the type \<^verbatim>\<open>size_t\<close>, is beyond the stored size.
\<close>

definition grow :: "heap \<Rightarrow> MyFsFileInfo \<Rightarrow> size_t \<Rightarrow> off_t \<Rightarrow> MyFsFileInfo" where
  "grow h f size_p offset =
     (if size_f f < offset + size_p
      then f\<lparr>data := realloc h (data f) (unat (offset + size_p)), size_f := offset + size_p\<rparr>
      else f)"

definition fuseWrite ::
  "heap \<Rightarrow> fs \<Rightarrow> string \<Rightarrow> byte list \<Rightarrow> size_t \<Rightarrow> off_t \<Rightarrow> fs outcome" where
  "fuseWrite h s path buf size_p offset =
     (case fmlookup (files s) path of
        None \<Rightarrow> Returns (- ENOENT) s
      | Some f \<Rightarrow>
          (let f1 = grow h f size_p offset
           in (case memmove_to (data f1) (sint offset) buf (unat size_p) of
                 None \<Rightarrow> Undefined
               | Some d \<Rightarrow>
                   Returns (to_int size_p)
                     (s\<lparr>files := fmupd path (f1\<lparr>data := d\<rparr>) (files s)\<rparr>))))"

text \<open>Both overloads of \<^verbatim>\<open>fuseTruncate\<close> have the same body.\<close>

definition fuseTruncate :: "heap \<Rightarrow> fs \<Rightarrow> string \<Rightarrow> off_t \<Rightarrow> fs outcome" where
  "fuseTruncate h s path newSize =
     (case fmlookup (files s) path of
        None \<Rightarrow> Returns (- ENOENT) s
      | Some f \<Rightarrow>
          Returns 0 (s\<lparr>files :=
            fmupd path (f\<lparr>data := realloc h (data f) (unat newSize), size_f := newSize\<rparr>)
              (files s)\<rparr>))"

subsection \<open>Sequences of calls\<close>

text \<open>
  One value for each call the FUSE layer can make, with everything the call reads from its
  environment: the clock for \<^verbatim>\<open>fuseMknod\<close>, the allocator for \<^verbatim>\<open>fuseWrite\<close> and
  \<^verbatim>\<open>fuseTruncate\<close>.
\<close>

datatype call =
    Mknod string mode_t time_t
  | Unlink string
  | Rename string string
  | Getattr string
  | Chmod string mode_t
  | Chown string uid_t gid_t
  | Open string
  | Release string
  | Read string size_t off_t
  | Write string "byte list" size_t off_t heap
  | Truncate string off_t heap
  | Init

text \<open>
  The state a call leaves behind. A call that throws leaves the state it had reached; after
  undefined behaviour there is no state to speak of.
\<close>

fun after :: "fs outcome \<Rightarrow> fs option" where
  "after (Returns r s') = Some s'"
| "after (Throws s') = Some s'"
| "after Undefined = None"

fun exec :: "limits \<Rightarrow> fs \<Rightarrow> call \<Rightarrow> fs option" where
  "exec lim s (Mknod path mode now) = after (fuseMknod lim now s path mode)"
| "exec lim s (Unlink path) = after (fuseUnlink s path)"
| "exec lim s (Rename path newpath) = after (fuseRename s path newpath)"
| "exec lim s (Getattr path) = Some s"
| "exec lim s (Chmod path mode) = after (fuseChmod s path mode)"
| "exec lim s (Chown path uid gid) = after (fuseChown s path uid gid)"
| "exec lim s (Open path) = after (fuseOpen lim s path)"
| "exec lim s (Release path) = after (fuseRelease s path)"
| "exec lim s (Read path size_p offset) =
     (if fuseRead s path size_p offset = Undefined then None else Some s)"
| "exec lim s (Write path buf size_p offset h) =
     after (fuseWrite h s path buf size_p offset)"
| "exec lim s (Truncate path newSize h) = after (fuseTruncate h s path newSize)"
| "exec lim s Init = after (fuseInit s)"

text \<open>
  The constructor leaves the table empty, and the static counter starts at 0.
\<close>

definition initial :: fs where
  "initial = \<lparr>files = fmempty, openFilesCount = 0\<rparr>"

inductive reachable :: "limits \<Rightarrow> fs \<Rightarrow> bool" for lim :: limits where
  start: "reachable lim initial"
| step: "reachable lim s \<Longrightarrow> exec lim s c = Some s' \<Longrightarrow> reachable lim s'"

text \<open>
  Invariant (c) of the data model: the block of a file has exactly as many bytes as its
  \<^verbatim>\<open>size\<close> field says.
\<close>

definition buffer_ok :: "MyFsFileInfo \<Rightarrow> bool" where
  "buffer_ok f \<longleftrightarrow> length (data f) = unat (size_f f)"

text \<open>The same for every file of a state.\<close>

definition buffers_ok :: "fs \<Rightarrow> bool" where
  "buffers_ok s \<longleftrightarrow> fmpred (\<lambda>path f. buffer_ok f) (files s)"

text \<open>
  The calls whose allocation, if they make one, succeeds. Only a truncate can go on after a
  failed allocation: a write that fails to grow the block copies into the null pointer.
\<close>

fun alloc_ok :: "call \<Rightarrow> bool" where
  "alloc_ok (Truncate path newSize h) = grants h (unat newSize)"
| "alloc_ok c = True"

subsection \<open>Sample states\<close>

text \<open>An allocator that grants a request of up to 4096 bytes and hands out zeroed memory.\<close>

definition sample_heap :: heap where
  "sample_heap = \<lparr>grants = (\<lambda>n. n \<le> 4096), fresh = (\<lambda>i. 0)\<rparr>"

definition small_limits :: limits where
  "small_limits = \<lparr>NAME_LENGTH = 255, NUM_DIR_ENTRIES = 1, NUM_OPEN_FILES = 1\<rparr>"

definition hello :: "byte list" where
  "hello = [104, 101, 108, 108, 111]"

definition hello_file :: MyFsFileInfo where
  "hello_file = \<lparr>name = ''a.txt'', permissions = 420, owner = 0, group_f = 0, size_f = 5,
                  data = hello, lastAccess = 0, lastModification = 0, lastStatusChange = 0\<rparr>"

definition hello_fs :: fs where
  "hello_fs = \<lparr>files = fmupd ''/a.txt'' hello_file fmempty, openFilesCount = 0\<rparr>"

definition statbuf0 :: stat where
  "statbuf0 = \<lparr>st_uid = 0, st_gid = 0, st_atime = 0, st_mtime = 0, st_mode = 0, st_nlink = 0,
                st_size = 0\<rparr>"

text \<open>The state after \<^verbatim>\<open>/a.txt\<close> has been opened once.\<close>

definition opened_fs :: fs where
  "opened_fs = hello_fs\<lparr>openFilesCount := 1\<rparr>"

section \<open>Properties\<close>

subsection \<open>Auxiliary facts\<close>

lemma length_realloc: "grants h n \<Longrightarrow> length (realloc h p n) = n"
  by (simp add: realloc_def)

lemma realloc_fails: "\<not> grants h n \<Longrightarrow> realloc h p n = []"
  by (simp add: realloc_def)

text \<open>A non-negative \<^verbatim>\<open>off_t\<close> has the same value read as a \<^verbatim>\<open>size_t\<close>.\<close>

lemma sint_nonneg_uint:
  fixes w :: "64 word"
  assumes "0 \<le> sint w"
  shows "uint w = sint w"
proof (cases "uint w < 2 ^ 63")
  case True
  moreover have "- (2 ^ 63) \<le> uint w"
    by (rule order_trans [of _ 0]) simp_all
  ultimately show ?thesis
    by (simp add: sint_uint signed_take_bit_int_eq_self)
next
  case False
  then have "signed_take_bit 63 (uint w) \<le> uint w - 2 ^ 64"
    using signed_take_bit_int_less_eq [of 63 "uint w"] by simp
  moreover have "uint w < 2 ^ 64"
    using uint_lt2p [of w] by simp
  moreover have "sint w = signed_take_bit 63 (uint w)"
    by (simp add: sint_uint)
  ultimately have "sint w < 0"
    by linarith
  with assms show ?thesis by linarith
qed

text \<open>So its value is the same again as a natural number, which is how lists are indexed.\<close>

lemma offset_nat:
  fixes offset :: "64 word"
  assumes "0 \<le> sint offset"
  shows "nat (sint offset) = unat offset" and "sint offset = int (unat offset)"
proof -
  have eq: "sint offset = uint offset"
    using sint_nonneg_uint [OF assms] by simp
  show "nat (sint offset) = unat offset"
    unfolding eq by simp
  show "sint offset = int (unat offset)"
    unfolding eq by simp
qed


text \<open>A byte count below \<open>2^31\<close> survives the conversion to \<^verbatim>\<open>int\<close>.\<close>

lemma to_int_small:
  assumes "unat n < 2 ^ 31"
  shows "to_int n = int (unat n)"
proof -
  from assms have small: "uint n < 2 ^ 31"
    by (simp add: unat_eq_nat_uint nat_less_iff del: nat_uint_eq)
  have "uint (ucast n :: 32 word) = take_bit 32 (uint n)"
    by (simp add: unsigned_ucast_eq)
  also have "\<dots> = uint n"
    using small by (simp add: take_bit_int_eq_self)
  finally have u: "uint (ucast n :: 32 word) = uint n" .
  have "sint (ucast n :: 32 word) = signed_take_bit 31 (uint (ucast n :: 32 word))"
    by (simp add: sint_uint)
  also have "\<dots> = signed_take_bit 31 (uint n)"
    by (simp only: u)
  also have "\<dots> = uint n"
  proof (rule signed_take_bit_int_eq_self)
    show "- (2 ^ 31) \<le> uint n"
      by (rule order_trans [of _ 0]) simp_all
    show "uint n < 2 ^ 31"
      by (rule small)
  qed
  finally show ?thesis
    by (simp add: to_int_def)
qed


subsection \<open>Reading\<close>

text \<open>
  An empty file gives 0 bytes. For an offset within the stored size the copy length is the
  smaller of the requested size and the distance to the end, and the bytes come from inside
  the block.
\<close>

lemma fuseRead_empty:
  "fmlookup (files s) path = Some f \<Longrightarrow> size_f f = 0 \<Longrightarrow> fuseRead s path n offset = Returns 0 []"
  by (simp add: fuseRead_def)

lemma fuseRead_within:
  assumes look: "fmlookup (files s) path = Some f"
    and ok: "buffer_ok f"
    and pos: "0 \<le> sint offset"
    and inside: "unat offset \<le> unat (size_f f)"
  shows "fuseRead s path n offset =
      Returns (to_int (min n (size_f f - offset))) (take (unat n) (drop (unat offset) (data f)))"
    and "unat (min n (size_f f - offset)) = min (unat n) (unat (size_f f) - unat offset)"
proof -
  from inside have "offset \<le> size_f f"
    by (simp add: word_le_nat_alt)
  then have diff: "unat (size_f f - offset) = unat (size_f f) - unat offset"
    by (rule unat_sub)
  then show m: "unat (min n (size_f f - offset)) = min (unat n) (unat (size_f f) - unat offset)"
    by (simp add: min_def word_le_nat_alt)
  show "fuseRead s path n offset =
      Returns (to_int (min n (size_f f - offset))) (take (unat n) (drop (unat offset) (data f)))"
  proof (cases "size_f f = 0")
    case True
    with inside have "offset = 0" by (simp add: unat_eq_0)
    with True look ok show ?thesis
      by (simp add: fuseRead_def to_int_def buffer_ok_def)
  next
    case False
    have "take (min (unat n) (unat (size_f f) - unat offset)) (drop (unat offset) (data f))
        = take (unat n) (drop (unat offset) (data f))"
      using ok by (simp add: buffer_ok_def min_def)
    with False look ok inside m offset_nat(1) [OF pos] pos show ?thesis
      by (simp add: fuseRead_def memmove_from_def buffer_ok_def bytesToCopy_def Let_def)
  qed
qed

text \<open>
  Claim C1 asks that a read of an existing file copies
  \<open>min (requested size, stored size - offset)\<close> bytes with that length clamped at 0, never
  reads outside the content block, returns 0 bytes for an empty file, and never copies more
  than \<open>stored size - offset\<close> bytes, also when the offset is beyond the stored size.

  The source computes \<^verbatim>\<open>files[path].size - offset\<close> at the unsigned type
  \<^verbatim>\<open>size_t\<close>. For the file \<^verbatim>\<open>/a.txt\<close> with the 5 bytes \<^verbatim>\<open>hello\<close>, a read of 10
  bytes at offset 6 sees \<open>5 - 6\<close> wrap around to \<open>2^64 - 1\<close>, so the copy length is 10 and
  \<^verbatim>\<open>memmove\<close> reads the 10 bytes from index 6 on, all of them outside the block of 5.
\<close>

theorem fuseRead_beyond_size:
  "fmlookup (files hello_fs) ''/a.txt'' = Some hello_file \<and> size_f hello_file = 5
   \<and> length (data hello_file) = 5
   \<and> bytesToCopy 10 (size_f hello_file) 6 = 10
   \<and> fuseRead hello_fs ''/a.txt'' 10 6 = Undefined"
  by (simp add: fuseRead_def hello_fs_def hello_file_def hello_def bytesToCopy_def
      memmove_from_def)

subsection \<open>Writing\<close>

text \<open>
  When the end of a write at a non-negative offset lies inside the block that the first
  step of \<^verbatim>\<open>fuseWrite\<close> leaves, the copy is defined and replaces exactly the bytes
  from the offset on. A read of a range that lies inside the stored size returns that range.
\<close>

lemma buffer_ok_grow:
  assumes "buffer_ok f"
    and "size_f f < offset + n \<Longrightarrow> grants h (unat (offset + n))"
  shows "buffer_ok (grow h f n offset)"
  using assms by (simp add: grow_def buffer_ok_def length_realloc)

text \<open>
  When the block has to grow and the allocation fails, \<^verbatim>\<open>data\<close> is the null pointer
  and the copy that follows is outside every block.
\<close>

lemma fuseWrite_alloc_fails:
  assumes look: "fmlookup (files s) path = Some f"
    and grows: "size_f f < offset + n"
    and fails: "\<not> grants h (unat (offset + n))"
  shows "fuseWrite h s path buf n offset = Undefined"
proof -
  from grows fails have null: "data (grow h f n offset) = []"
    by (simp add: grow_def realloc_fails)
  have "memmove_to [] (sint offset) buf (unat n) = None"
  proof (rule ccontr)
    assume "memmove_to [] (sint offset) buf (unat n) \<noteq> None"
    then have zero: "sint offset = 0" and "unat n = 0"
      by (auto simp: memmove_to_def split: if_splits)
    from zero have "unat offset = 0"
      using offset_nat(1) [of offset] by simp
    then have "offset = 0"
      by (simp add: unat_eq_0)
    moreover from \<open>unat n = 0\<close> have "n = 0"
      by (simp add: unat_eq_0)
    ultimately show False
      using grows by simp
  qed
  with look null show ?thesis
    by (simp add: fuseWrite_def Let_def)
qed




text \<open>
  The source documents the offset as the number of the first byte to read or write,
  counted from the first byte of the file. A negative \<^verbatim>\<open>off_t\<close> is not such a number:
  it makes \<^verbatim>\<open>data + offset\<close> point before the block, and the copy is undefined.
\<close>

lemma negative_offset_undefined:
  assumes "fmlookup (files s) path = Some f" and "sint offset < 0"
  shows "fuseWrite h s path buf n offset = Undefined"
    and "size_f f \<noteq> 0 \<Longrightarrow> fuseRead s path n offset = Undefined"
  using assms
  by (simp_all add: fuseWrite_def fuseRead_def memmove_to_def memmove_from_def Let_def)






subsection \<open>Renaming\<close>

text \<open>
  When the source exists and differs from the destination, the destination is erased, the
  record is stored under the new key with its name replaced and everything else kept, and
  the old key is erased; no other entry changes. A rename of an existing file to its own
  path erases the file and then fails to find it.
\<close>

lemma fuseRename_moves:
  assumes "fmlookup (files s) path = Some f" and "path \<noteq> newpath"
  shows "fuseRename s path newpath =
    Returns 0 (s\<lparr>files :=
      fmdrop path (fmupd newpath (f\<lparr>name := drop 1 newpath\<rparr>) (fmdrop newpath (files s)))\<rparr>)"
proof (cases "fmlookup (files s) newpath")
  case None
  then have "fmdrop newpath (files s) = files s"
    by (simp add: fmdrop_idle fmdom_notI)
  with None assms show ?thesis
    by (simp add: fuseRename_def)
next
  case (Some old)
  with assms show ?thesis
    by (simp add: fuseRename_def)
qed

lemma fuseRename_moves_lookup:
  assumes "fmlookup (files s) path = Some f" and "path \<noteq> newpath"
    and "fuseRename s path newpath = Returns r s'"
  shows "fmlookup (files s') newpath = Some (f\<lparr>name := drop 1 newpath\<rparr>)"
    and "fmlookup (files s') path = None"
    and "p \<noteq> path \<Longrightarrow> p \<noteq> newpath \<Longrightarrow> fmlookup (files s') p = fmlookup (files s) p"
  using assms(3) assms(2) unfolding fuseRename_moves [OF assms(1,2)] by auto

lemma fuseRename_same_path:
  assumes "fmlookup (files s) path = Some f"
  shows "fuseRename s path path = Throws (s\<lparr>files := fmdrop path (files s)\<rparr>)"
  using assms by (simp add: fuseRename_def)

text \<open>
  Claim C6 asks of \<^verbatim>\<open>rename(name, newName)\<close> that an entry at \<open>newName\<close> is removed
  first, that the record at \<open>name\<close> is relabelled and moved to the new key, and that an
  absent \<open>name\<close> gives a NotFound error returned to the caller.

  \<^verbatim>\<open>fuseRename\<close> has no test for the source: with no entry at \<^verbatim>\<open>/a.txt\<close>,
  \<^verbatim>\<open>files.at(path)\<close> throws \<^verbatim>\<open>std::out_of_range\<close> and no error code is returned.
\<close>

theorem fuseRename_absent_source:
  "fmlookup (files initial) ''/a.txt'' = None
   \<and> fuseRename initial ''/a.txt'' ''/b.txt'' = Throws initial"
  by (simp add: fuseRename_def initial_def)

text \<open>
  Claim C9 asks that every operation that fails leaves the table, every record and the
  counter as they were before the call.

  A rename of the absent \<^verbatim>\<open>/b.txt\<close> to the existing \<^verbatim>\<open>/a.txt\<close> erases
  \<^verbatim>\<open>/a.txt\<close> and then fails at \<^verbatim>\<open>files.at(path)\<close>: the table is empty afterwards.
\<close>

theorem fuseRename_failure_mutates:
  "fuseRename hello_fs ''/b.txt'' ''/a.txt'' = Throws initial \<and> initial \<noteq> hello_fs
   \<and> fmlookup (files hello_fs) ''/a.txt'' = Some hello_file
   \<and> fmlookup (files initial) ''/a.txt'' = None"
proof -
  have a: "fmlookup (files hello_fs) ''/a.txt'' = Some hello_file"
    by (simp add: hello_fs_def)
  have b: "fmlookup (files initial) ''/a.txt'' = None"
    by (simp add: initial_def)
  have c: "fuseRename hello_fs ''/b.txt'' ''/a.txt'' = Throws initial"
    by (simp add: fuseRename_def initial_def hello_fs_def fmdrop_fmupd_same)
  from a b have "initial \<noteq> hello_fs" by auto
  with a b c show ?thesis by simp
qed

text \<open>
  The other calls that change the state return their error before they touch it, and a
  rename that returns has succeeded. (A write of \<open>2^31\<close> bytes or more returns a byte
  count that does not fit the \<^verbatim>\<open>int\<close>.)
\<close>

lemma error_keeps_state:
  shows "fuseMknod lim now s path mode = Returns r s' \<Longrightarrow> r < 0 \<Longrightarrow> s' = s"
    and "fuseUnlink s path = Returns r s' \<Longrightarrow> r < 0 \<Longrightarrow> s' = s"
    and "fuseChmod s path mode = Returns r s' \<Longrightarrow> r < 0 \<Longrightarrow> s' = s"
    and "fuseChown s path uid gid = Returns r s' \<Longrightarrow> r < 0 \<Longrightarrow> s' = s"
    and "fuseOpen lim s path = Returns r s' \<Longrightarrow> r < 0 \<Longrightarrow> s' = s"
    and "fuseRelease s path = Returns r s' \<Longrightarrow> r < 0 \<Longrightarrow> s' = s"
    and "fuseTruncate h s path newSize = Returns r s' \<Longrightarrow> r < 0 \<Longrightarrow> s' = s"
    and "fuseRename s path newpath = Returns r s' \<Longrightarrow> r = 0"
  by (auto simp: fuseMknod_def fuseUnlink_def fuseChmod_def fuseChown_def fuseOpen_def
      fuseRelease_def fuseTruncate_def fuseRename_def Let_def
      split: if_splits option.splits)

lemma fuseWrite_error_keeps_state:
  assumes "fuseWrite h s path buf n offset = Returns r s'" and "r < 0"
    and "unat n < 2 ^ 31"
  shows "s' = s"
proof (cases "fmlookup (files s) path")
  case None
  with assms(1) show ?thesis
    by (simp add: fuseWrite_def)
next
  case (Some f)
  with assms(1) have "r = to_int n"
    by (auto simp: fuseWrite_def Let_def split: option.splits)
  with to_int_small [OF assms(3)] have "0 \<le> r"
    by simp
  with assms(2) show ?thesis
    by simp
qed

subsection \<open>Closing with no open file\<close>

text \<open>
  Claim C7 asks that closing an existing file while the counter is 0 fails with an error
  kind of its own, distinct from the one for an absent file.

  Counterexample: with the counter at 0, closing the existing \<^verbatim>\<open>/a.txt\<close> and closing
  the absent \<^verbatim>\<open>/b.txt\<close> return the same code.
\<close>

theorem fuseRelease_same_code_counterexample:
  "fmlookup (files hello_fs) ''/a.txt'' \<noteq> None \<and> openFilesCount hello_fs = 0
   \<and> fmlookup (files hello_fs) ''/b.txt'' = None
   \<and> ret (fuseRelease hello_fs ''/a.txt'') = ret (fuseRelease hello_fs ''/b.txt'')"
  by (simp add: fuseRelease_def hello_fs_def)

text \<open>
  Claim C7 as amended: closing an existing file while the counter is 0 fails with
  \<^verbatim>\<open>-ENOENT\<close>, the code that closing an absent file returns too, and leaves the state as
  it was.
\<close>

theorem fuseRelease_at_zero:
  assumes "fmlookup (files s) path = Some f" and "openFilesCount s = 0"
    and "fmlookup (files s) absent = None"
  shows "fuseRelease s path = Returns (- ENOENT) s
         \<and> fuseRelease s absent = Returns (- ENOENT) s"
  using assms by (simp add: fuseRelease_def)

theorem fuseRelease_at_zero_witness:
  "fuseRelease hello_fs ''/a.txt'' = Returns (- ENOENT) hello_fs
   \<and> fuseRelease hello_fs ''/b.txt'' = Returns (- ENOENT) hello_fs"
proof -
  have a: "fmlookup (files hello_fs) ''/a.txt'' = Some hello_file"
    by (simp add: hello_fs_def)
  have b: "openFilesCount hello_fs = 0"
    by (simp add: hello_fs_def)
  have c: "fmlookup (files hello_fs) ''/b.txt'' = None"
    by (simp add: hello_fs_def)
  show ?thesis by (rule fuseRelease_at_zero [OF a b c])
qed

subsection \<open>Attributes after a create and after a truncate\<close>

text \<open>
  Claim C5 asks that a create followed by a stat reports size 0 and the permissions that
  the create was given.

  Counterexample: \<^verbatim>\<open>/a.txt\<close> is created with mode 0100600 (33152: a regular file with
  permissions 0600), and the stat reports mode 0100644 (33188), whose permission bits are
  0644 (420) and not 0600 (384).
\<close>

theorem mknod_getattr_mode_counterexample:
  "ret (fuseMknod small_limits 7 initial ''/a.txt'' 33152) = 0
   \<and> st_mode (result (fuseGetattr 0 0 7
         (result (fuseMknod small_limits 7 initial ''/a.txt'' 33152)) ''/a.txt'' statbuf0))
       = 33188
   \<and> (33188 :: mode_t) AND 4095 = 420 \<and> (33152 :: mode_t) AND 4095 = 384"
  by (simp add: fuseMknod_def fuseGetattr_def small_limits_def initial_def statbuf0_def
      S_IFREG_def fcard_fempty)

text \<open>
  Claim C5 as amended: for a name of admissible length that is not in use, in a table with
  room, a create succeeds and stores the requested mode in the record; a stat of the new
  file reports a regular file of size 0 with link count 1 and the fixed permissions 0644,
  whatever mode was requested. (The path \<^verbatim>\<open>/\<close> is the root directory to
  \<^verbatim>\<open>fuseGetattr\<close>.)
\<close>

theorem mknod_then_getattr:
  assumes "length (drop 1 path) \<le> NAME_LENGTH lim"
    and "fmlookup (files s) path = None"
    and "fcard (fmdom (files s)) < NUM_DIR_ENTRIES lim"
    and "path \<noteq> ''/''"
  shows "\<exists>s'. fuseMknod lim now s path mode = Returns 0 s'
           \<and> map_option permissions (fmlookup (files s') path) = Some mode
           \<and> fuseGetattr uid gid now' s' path statbuf =
                Returns 0 (statbuf\<lparr>st_uid := uid, st_gid := gid, st_atime := now',
                  st_mtime := now', st_mode := S_IFREG OR 420, st_nlink := 1, st_size := 0\<rparr>)"
  using assms by (simp add: fuseMknod_def fuseGetattr_def Let_def)

theorem mknod_then_getattr_witness:
  "ret (fuseMknod small_limits 7 initial ''/a.txt'' 33152) = 0
   \<and> map_option permissions
        (fmlookup (files (result (fuseMknod small_limits 7 initial ''/a.txt'' 33152)))
          ''/a.txt'') = Some 33152
   \<and> fuseGetattr 0 0 9 (result (fuseMknod small_limits 7 initial ''/a.txt'' 33152))
        ''/a.txt'' statbuf0 =
      Returns 0 (statbuf0\<lparr>st_uid := 0, st_gid := 0, st_atime := 9, st_mtime := 9,
        st_mode := S_IFREG OR 420, st_nlink := 1, st_size := 0\<rparr>)"
proof -
  have h1: "length (drop 1 ''/a.txt'') \<le> NAME_LENGTH small_limits"
    by (simp add: small_limits_def)
  have h2: "fmlookup (files initial) ''/a.txt'' = None"
    by (simp add: initial_def)
  have h3: "fcard (fmdom (files initial)) < NUM_DIR_ENTRIES small_limits"
    by (simp add: initial_def small_limits_def fcard_fempty)
  have h4: "''/a.txt'' \<noteq> ''/''"
    by simp
  from mknod_then_getattr [OF h1 h2 h3 h4, of 7 33152 0 0 9 statbuf0]
  obtain s' where "fuseMknod small_limits 7 initial ''/a.txt'' 33152 = Returns 0 s'"
    and "map_option permissions (fmlookup (files s') ''/a.txt'') = Some 33152"
    and "fuseGetattr 0 0 9 s' ''/a.txt'' statbuf0 =
      Returns 0 (statbuf0\<lparr>st_uid := 0, st_gid := 0, st_atime := 9, st_mtime := 9,
        st_mode := S_IFREG OR 420, st_nlink := 1, st_size := 0\<rparr>)"
    by blast
  then show ?thesis by simp
qed

text \<open>
  Claim C8: for an existing file and every \<open>k \<ge> 0\<close>, \<open>k = 0\<close> included, a truncate to
  \<open>k\<close> succeeds, the stored size is \<open>k\<close>, and a stat that follows reports size
  \<open>k\<close>, whether or not the allocation succeeds; when it does, the block has \<open>k\<close>
  bytes. (The path \<^verbatim>\<open>/\<close> is the root directory to
  \<^verbatim>\<open>fuseGetattr\<close>, which reports no size for it.)
\<close>

theorem truncate_then_getattr:
  assumes "fmlookup (files s) path = Some f" and "path \<noteq> ''/''" and "0 \<le> sint k"
  shows "\<exists>s' f'. fuseTruncate h s path k = Returns 0 s'
           \<and> fmlookup (files s') path = Some f'
           \<and> uint (size_f f') = sint k
           \<and> (grants h (unat k) \<longrightarrow> int (length (data f')) = sint k)
           \<and> fuseGetattr uid gid now s' path statbuf =
                Returns 0 (statbuf\<lparr>st_uid := uid, st_gid := gid, st_atime := now,
                  st_mtime := now, st_mode := S_IFREG OR 420, st_nlink := 1, st_size := k\<rparr>)"
  using assms sint_nonneg_uint [of k]
  by (simp add: fuseTruncate_def fuseGetattr_def Let_def length_realloc)

theorem truncate_then_getattr_witness:
  "fuseTruncate sample_heap hello_fs ''/a.txt'' 2 =
     Returns 0 (hello_fs\<lparr>files :=
       fmupd ''/a.txt'' (hello_file\<lparr>data := [104, 101], size_f := 2\<rparr>) (files hello_fs)\<rparr>)
   \<and> st_size (result (fuseGetattr 0 0 9
        (result (fuseTruncate sample_heap hello_fs ''/a.txt'' 2)) ''/a.txt'' statbuf0)) = 2"
proof -
  have h1: "fmlookup (files hello_fs) ''/a.txt'' = Some hello_file"
    by (simp add: hello_fs_def)
  have h2: "''/a.txt'' \<noteq> ''/''"
    by simp
  have h3: "0 \<le> sint (2 :: 64 word)"
    by simp
  from truncate_then_getattr [OF h1 h2 h3, of sample_heap 0 0 9 statbuf0]
  obtain s' f' where "fuseTruncate sample_heap hello_fs ''/a.txt'' 2 = Returns 0 s'"
    and "fuseGetattr 0 0 9 s' ''/a.txt'' statbuf0 =
      Returns 0 (statbuf0\<lparr>st_uid := 0, st_gid := 0, st_atime := 9, st_mtime := 9,
        st_mode := S_IFREG OR 420, st_nlink := 1, st_size := 2\<rparr>)"
    by blast
  moreover have "fuseTruncate sample_heap hello_fs ''/a.txt'' 2 =
     Returns 0 (hello_fs\<lparr>files :=
       fmupd ''/a.txt'' (hello_file\<lparr>data := [104, 101], size_f := 2\<rparr>) (files hello_fs)\<rparr>)"
    using h1 by (simp add: fuseTruncate_def realloc_def sample_heap_def hello_file_def hello_def)
  ultimately show ?thesis by simp
qed

subsection \<open>Invariants of the reachable states\<close>

text \<open>
  The two bounds are kept by every call, so they hold in every state that a sequence of
  calls reaches from the initial one. A rename never adds to the number of entries: the
  destination is absent when the record is stored under it, and the source is erased.
\<close>

lemma fcard_finsert_present:
  "fmlookup m k = Some v \<Longrightarrow> fcard (finsert k (fmdom m)) = fcard (fmdom m)"
  by (simp add: fcard_finsert_if fmdomI)

lemma word_pred_le: "(w :: 32 word) \<noteq> 0 \<Longrightarrow> w - 1 \<le> w"
  by (meson less_eq_dec_triv_imp nle_le)

lemma rename_card:
  assumes "newpath |\<notin>| fmdom m" and "fmlookup m path = Some v"
  shows "fcard (fmdom (fmdrop path (fmupd newpath v' m))) = fcard (fmdom m)"
proof -
  from assms(2) have "path |\<in>| fmdom m"
    by (rule fmdomI)
  then have "path |\<in>| finsert newpath (fmdom m)"
    by simp
  then have "fcard (finsert newpath (fmdom m) |-| {|path|})
      = fcard (finsert newpath (fmdom m)) - 1"
    by (rule fcard_fminus_fsingleton)
  also have "\<dots> = fcard (fmdom m)"
    using assms(1) by (simp add: fcard_finsert_disjoint)
  finally show ?thesis by simp
qed

lemma fuseRename_card:
  assumes "after (fuseRename s path newpath) = Some s'"
  shows "fcard (fmdom (files s')) \<le> fcard (fmdom (files s))"
proof (cases "fmlookup (files s) newpath")
  case None
  then have absent: "newpath |\<notin>| fmdom (files s)"
    by (simp add: fmdom_notI)
  show ?thesis
  proof (cases "fmlookup (files s) path")
    case None
    with \<open>fmlookup (files s) newpath = None\<close> assms show ?thesis
      by (auto simp: fuseRename_def)
  next
    case (Some fileInfo)
    with \<open>fmlookup (files s) newpath = None\<close> assms
    have "files s' = fmdrop path (fmupd newpath (fileInfo\<lparr>name := drop 1 newpath\<rparr>) (files s))"
      by (auto simp: fuseRename_def)
    with rename_card [OF absent Some] show ?thesis by simp
  qed
next
  case (Some old)
  let ?files1 = "fmdrop newpath (files s)"
  have absent: "newpath |\<notin>| fmdom ?files1"
    by simp
  have le1: "fcard (fmdom ?files1) \<le> fcard (fmdom (files s))"
    by (simp add: fcard_fminus1_le)
  show ?thesis
  proof (cases "fmlookup ?files1 path")
    case None
    with Some assms have "files s' = ?files1"
      by (auto simp: fuseRename_def)
    with le1 show ?thesis by simp
  next
    case found: (Some fileInfo)
    with Some assms
    have "files s' = fmdrop path (fmupd newpath (fileInfo\<lparr>name := drop 1 newpath\<rparr>) ?files1)"
      by (auto simp: fuseRename_def)
    with rename_card [OF absent found] le1 show ?thesis by simp
  qed
qed

lemma exec_card:
  assumes "exec lim s c = Some s'"
    and "fcard (fmdom (files s)) \<le> NUM_DIR_ENTRIES lim"
  shows "fcard (fmdom (files s')) \<le> NUM_DIR_ENTRIES lim"
proof (cases c)
  case (Mknod path mode now)
  with assms show ?thesis
    by (auto simp: fuseMknod_def Let_def fcard_finsert_if split: if_splits)
next
  case (Unlink path)
  with assms show ?thesis
    using fcard_fminus1_le [of "fmdom (files s)" path]
    by (auto simp: fuseUnlink_def split: if_splits)
next
  case (Rename path newpath)
  with assms show ?thesis
    using fuseRename_card [of s path newpath s'] by simp
next
  case (Getattr path)
  with assms show ?thesis by simp
next
  case (Chmod path mode)
  with assms show ?thesis
    by (auto simp: fuseChmod_def fcard_finsert_present split: option.splits)
next
  case (Chown path uid gid)
  with assms show ?thesis
    by (auto simp: fuseChown_def Let_def fcard_finsert_present split: option.splits)
next
  case (Open path)
  with assms show ?thesis
    by (auto simp: fuseOpen_def split: if_splits)
next
  case (Release path)
  with assms show ?thesis
    by (auto simp: fuseRelease_def split: if_splits)
next
  case (Read path size_p offset)
  with assms show ?thesis
    by (auto split: if_splits)
next
  case (Write path buf size_p offset h)
  with assms show ?thesis
    by (auto simp: fuseWrite_def Let_def fcard_finsert_present split: option.splits)
next
  case (Truncate path newSize h)
  with assms show ?thesis
    by (auto simp: fuseTruncate_def fcard_finsert_present split: option.splits)
next
  case Init
  with assms show ?thesis
    by (auto simp: fuseInit_def)
qed

lemma reachable_card:
  "reachable lim s \<Longrightarrow> fcard (fmdom (files s)) \<le> NUM_DIR_ENTRIES lim"
proof (induction rule: reachable.induct)
  case start
  show ?case by (simp add: initial_def fcard_fempty)
next
  case (step s c s')
  then show ?case by (simp add: exec_card)
qed

lemma exec_count:
  assumes "exec lim s c = Some s'"
    and "openFilesCount s \<le> NUM_OPEN_FILES lim"
  shows "openFilesCount s' \<le> NUM_OPEN_FILES lim"
proof (cases c)
  case (Mknod path mode now)
  with assms show ?thesis
    by (auto simp: fuseMknod_def Let_def split: if_splits)
next
  case (Unlink path)
  with assms show ?thesis
    by (auto simp: fuseUnlink_def split: if_splits)
next
  case (Rename path newpath)
  with assms show ?thesis
    by (auto simp: fuseRename_def Let_def split: option.splits)
next
  case (Getattr path)
  with assms show ?thesis by simp
next
  case (Chmod path mode)
  with assms show ?thesis
    by (auto simp: fuseChmod_def split: option.splits)
next
  case (Chown path uid gid)
  with assms show ?thesis
    by (auto simp: fuseChown_def Let_def split: option.splits)
next
  case (Open path)
  with assms show ?thesis
    by (auto simp: fuseOpen_def not_le inc_le split: if_splits)
next
  case (Release path)
  with assms show ?thesis
    using word_pred_le [of "openFilesCount s"]
    by (auto simp: fuseRelease_def split: if_splits)
next
  case (Read path size_p offset)
  with assms show ?thesis
    by (auto split: if_splits)
next
  case (Write path buf size_p offset h)
  with assms show ?thesis
    by (auto simp: fuseWrite_def Let_def split: option.splits)
next
  case (Truncate path newSize h)
  with assms show ?thesis
    by (auto simp: fuseTruncate_def split: option.splits)
next
  case Init
  with assms show ?thesis
    by (auto simp: fuseInit_def)
qed

lemma reachable_count:
  "reachable lim s \<Longrightarrow> openFilesCount s \<le> NUM_OPEN_FILES lim"
proof (induction rule: reachable.induct)
  case start
  show ?case by (simp add: initial_def)
next
  case (step s c s')
  then show ?case by (simp add: exec_count)
qed


text \<open>
  Invariant (c) is kept by every call whose allocation succeeds. A truncate whose allocation
  fails breaks it: the record then holds the null pointer together with the new size.
\<close>

lemma buffers_ok_iff:
  "buffers_ok s \<longleftrightarrow> (\<forall>path f. fmlookup (files s) path = Some f \<longrightarrow> buffer_ok f)"
  by (simp add: buffers_ok_def fmpred_iff)

lemma fuseWrite_buffers_ok:
  assumes w: "after (fuseWrite h s path buf n offset) = Some s'" and inv: "buffers_ok s"
  shows "buffers_ok s'"
proof (cases "fmlookup (files s) path")
  case None
  with w have "s' = s"
    by (simp add: fuseWrite_def)
  with inv show ?thesis by simp
next
  case (Some f)
  let ?f1 = "grow h f n offset"
  have alloc: "grants h (unat (offset + n))" if "size_f f < offset + n"
  proof (rule ccontr)
    assume "\<not> grants h (unat (offset + n))"
    with Some that have "fuseWrite h s path buf n offset = Undefined"
      by (rule fuseWrite_alloc_fails)
    with w show False by simp
  qed
  from inv Some have "buffer_ok f"
    by (simp add: buffers_ok_iff)
  then have ok1: "buffer_ok ?f1"
    using alloc by (rule buffer_ok_grow)
  from w Some obtain d where m: "memmove_to (data ?f1) (sint offset) buf (unat n) = Some d"
    and s': "s' = s\<lparr>files := fmupd path (?f1\<lparr>data := d\<rparr>) (files s)\<rparr>"
    by (auto simp: fuseWrite_def Let_def split: option.splits)
  from m have "length d = length (data ?f1)"
    by (auto simp: memmove_to_def split: if_splits)
  with ok1 have "buffer_ok (?f1\<lparr>data := d\<rparr>)"
    by (simp add: buffer_ok_def)
  with inv show ?thesis
    by (auto simp: buffers_ok_iff s')
qed

lemma exec_buffers_ok:
  assumes "exec lim s c = Some s'" and "alloc_ok c" and "buffers_ok s"
  shows "buffers_ok s'"
proof (cases c)
  case (Mknod path mode now)
  with assms show ?thesis
    by (auto simp: fuseMknod_def Let_def buffers_ok_iff buffer_ok_def split: if_splits)
next
  case (Unlink path)
  with assms show ?thesis
    by (auto simp: fuseUnlink_def buffers_ok_iff split: if_splits)
next
  case (Rename path newpath)
  with assms show ?thesis
    by (auto simp: fuseRename_def Let_def buffers_ok_iff buffer_ok_def
        split: option.splits if_splits)
next
  case (Getattr path)
  with assms show ?thesis by simp
next
  case (Chmod path mode)
  with assms show ?thesis
    by (auto simp: fuseChmod_def buffers_ok_iff buffer_ok_def split: option.splits if_splits)
next
  case (Chown path uid gid)
  with assms show ?thesis
    by (auto simp: fuseChown_def Let_def buffers_ok_iff buffer_ok_def
        split: option.splits if_splits)
next
  case (Open path)
  with assms show ?thesis
    by (auto simp: fuseOpen_def buffers_ok_iff split: if_splits)
next
  case (Release path)
  with assms show ?thesis
    by (auto simp: fuseRelease_def buffers_ok_iff split: if_splits)
next
  case (Read path size_p offset)
  with assms show ?thesis
    by (auto split: if_splits)
next
  case (Write path buf size_p offset h)
  with assms show ?thesis
    by (simp add: fuseWrite_buffers_ok)
next
  case (Truncate path newSize h)
  with assms show ?thesis
    by (auto simp: fuseTruncate_def buffers_ok_iff buffer_ok_def length_realloc
        split: option.splits if_splits)
next
  case Init
  with assms show ?thesis
    by (auto simp: fuseInit_def buffers_ok_iff)
qed

lemma fuseTruncate_alloc_fails:
  assumes "fmlookup (files s) path = Some f" and "\<not> grants h (unat k)"
  shows "fuseTruncate h s path k =
    Returns 0 (s\<lparr>files := fmupd path (f\<lparr>data := [], size_f := k\<rparr>) (files s)\<rparr>)"
    and "k \<noteq> 0 \<Longrightarrow> \<not> buffer_ok (f\<lparr>data := [], size_f := k\<rparr>)"
  using assms by (simp_all add: fuseTruncate_def realloc_fails buffer_ok_def unat_eq_0)

lemma uint_succ: "(c :: 32 word) < m \<Longrightarrow> uint (c + 1) = uint c + 1"
  by (metis (no_types, lifting) add.commute add_0 inc_i inc_le
    uint_plus_simple_iff unsigned_0 unsigned_1 word_gt_0)

lemma uint_pred: "(c :: 32 word) \<noteq> 0 \<Longrightarrow> uint (c - 1) = uint c - 1"
  using uint_minus_simple_alt word_le_sub1 by force

lemma reachable_hello_fs: "reachable small_limits hello_fs"
proof -
  let ?s1 = "\<lparr>files = fmupd ''/a.txt'' (hello_file\<lparr>size_f := 0, data := []\<rparr>) fmempty,
              openFilesCount = 0\<rparr>"
  have "exec small_limits initial (Mknod ''/a.txt'' 420 0) = Some ?s1"
    by (simp add: fuseMknod_def initial_def small_limits_def hello_file_def fcard_fempty)
  with reachable.start have 1: "reachable small_limits ?s1"
    by (rule reachable.step)
  have "exec small_limits ?s1 (Write ''/a.txt'' hello 5 0 sample_heap) = Some hello_fs"
    by (simp add: fuseWrite_def grow_def memmove_to_def length_realloc sample_heap_def
        hello_fs_def hello_file_def hello_def)
  with 1 show ?thesis
    by (rule reachable.step)
qed


lemma reachable_opened_fs: "reachable small_limits opened_fs"
proof -
  have "exec small_limits hello_fs (Open ''/a.txt'') = Some opened_fs"
    by (simp add: fuseOpen_def hello_fs_def small_limits_def opened_fs_def)
  with reachable_hello_fs show ?thesis
    by (rule reachable.step)
qed

text \<open>
  Claim C4: in every reachable state the open-file counter lies between 0 and
  \<^verbatim>\<open>NUM_OPEN_FILES\<close>. Opening an existing file adds one to it, unless it is at
  \<^verbatim>\<open>NUM_OPEN_FILES\<close>: then the call fails with \<^verbatim>\<open>-EMFILE\<close> and changes nothing.
  Closing an existing file takes one from it, unless it is 0: then the call fails and
  changes nothing. Neither step wraps around, and no call leads to a state where the
  counter is beyond the limit.
\<close>

theorem open_counter_bounded:
  assumes "reachable lim s"
  shows "0 \<le> uint (openFilesCount s) \<and> uint (openFilesCount s) \<le> uint (NUM_OPEN_FILES lim)
    \<and> (\<forall>path f. fmlookup (files s) path = Some f \<longrightarrow>
          fuseOpen lim s path =
            (if openFilesCount s = NUM_OPEN_FILES lim then Returns (- EMFILE) s
             else Returns 0 (s\<lparr>openFilesCount := openFilesCount s + 1\<rparr>))
          \<and> fuseRelease s path =
            (if openFilesCount s = 0 then Returns (- ENOENT) s
             else Returns 0 (s\<lparr>openFilesCount := openFilesCount s - 1\<rparr>)))
    \<and> (openFilesCount s \<noteq> NUM_OPEN_FILES lim \<longrightarrow>
          uint (openFilesCount s + 1) = uint (openFilesCount s) + 1)
    \<and> (openFilesCount s \<noteq> 0 \<longrightarrow> uint (openFilesCount s - 1) = uint (openFilesCount s) - 1)
    \<and> (\<forall>c s'. exec lim s c = Some s' \<longrightarrow>
          uint (openFilesCount s') \<le> uint (NUM_OPEN_FILES lim))"
proof -
  from assms have le: "openFilesCount s \<le> NUM_OPEN_FILES lim"
    by (rule reachable_count)
  then have bound: "uint (openFilesCount s) \<le> uint (NUM_OPEN_FILES lim)"
    by (simp add: word_le_def)
  have calls: "fuseOpen lim s path =
            (if openFilesCount s = NUM_OPEN_FILES lim then Returns (- EMFILE) s
             else Returns 0 (s\<lparr>openFilesCount := openFilesCount s + 1\<rparr>))
          \<and> fuseRelease s path =
            (if openFilesCount s = 0 then Returns (- ENOENT) s
             else Returns 0 (s\<lparr>openFilesCount := openFilesCount s - 1\<rparr>))"
    if "fmlookup (files s) path = Some f" for path f
    using that le by (auto simp: fuseOpen_def fuseRelease_def)
  have up: "uint (openFilesCount s + 1) = uint (openFilesCount s) + 1"
    if "openFilesCount s \<noteq> NUM_OPEN_FILES lim"
  proof -
    from that le have "openFilesCount s < NUM_OPEN_FILES lim" by simp
    then show ?thesis by (rule uint_succ)
  qed
  have down: "uint (openFilesCount s - 1) = uint (openFilesCount s) - 1"
    if "openFilesCount s \<noteq> 0"
    using that by (rule uint_pred)
  have next_state: "uint (openFilesCount s') \<le> uint (NUM_OPEN_FILES lim)"
    if "exec lim s c = Some s'" for c s'
    using exec_count [OF that le] by (simp add: word_le_def)
  from bound calls up down next_state show ?thesis
    by simp
qed

theorem open_counter_bounded_witness:
  "uint (openFilesCount opened_fs) \<le> uint (NUM_OPEN_FILES small_limits)
   \<and> fuseOpen small_limits opened_fs ''/a.txt'' = Returns (- EMFILE) opened_fs
   \<and> fuseRelease opened_fs ''/a.txt'' = Returns 0 hello_fs"
proof -
  have look: "fmlookup (files opened_fs) ''/a.txt'' = Some hello_file"
    by (simp add: opened_fs_def hello_fs_def)
  have full: "openFilesCount opened_fs = NUM_OPEN_FILES small_limits"
    by (simp add: opened_fs_def small_limits_def)
  have nonzero: "openFilesCount opened_fs \<noteq> 0"
    by (simp add: opened_fs_def)
  have restored: "opened_fs\<lparr>openFilesCount := openFilesCount opened_fs - 1\<rparr> = hello_fs"
    by (simp add: opened_fs_def hello_fs_def)
  from open_counter_bounded [OF reachable_opened_fs] look full nonzero restored
  show ?thesis by simp
qed

text \<open>
  Claim C3: in every reachable state the table has at most \<^verbatim>\<open>NUM_DIR_ENTRIES\<close>
  entries. When it has exactly that many, every create fails and leaves the state as it
  was, and a create whose name passes the two earlier tests of \<^verbatim>\<open>fuseMknod\<close>
  (admissible length, not yet in use) fails with \<^verbatim>\<open>-ENOSPC\<close>. A rename never
  increases the number of entries, and no call leads to a state beyond the limit.
\<close>

theorem store_capacity:
  assumes "reachable lim s"
  shows "fcard (fmdom (files s)) \<le> NUM_DIR_ENTRIES lim
    \<and> (fcard (fmdom (files s)) = NUM_DIR_ENTRIES lim \<longrightarrow>
          (\<forall>path mode now.
             (\<exists>e. e \<in> {ENAMETOOLONG, EEXIST, ENOSPC}
                  \<and> fuseMknod lim now s path mode = Returns (- e) s)
             \<and> (length (drop 1 path) \<le> NAME_LENGTH lim \<and> fmlookup (files s) path = None
                  \<longrightarrow> fuseMknod lim now s path mode = Returns (- ENOSPC) s)))
    \<and> (\<forall>path newpath s'. after (fuseRename s path newpath) = Some s' \<longrightarrow>
          fcard (fmdom (files s')) \<le> fcard (fmdom (files s)))
    \<and> (\<forall>c s'. exec lim s c = Some s' \<longrightarrow> fcard (fmdom (files s')) \<le> NUM_DIR_ENTRIES lim)"
proof -
  from assms have le: "fcard (fmdom (files s)) \<le> NUM_DIR_ENTRIES lim"
    by (rule reachable_card)
  have create: "(\<exists>e. e \<in> {ENAMETOOLONG, EEXIST, ENOSPC}
                  \<and> fuseMknod lim now s path mode = Returns (- e) s)
             \<and> (length (drop 1 path) \<le> NAME_LENGTH lim \<and> fmlookup (files s) path = None
                  \<longrightarrow> fuseMknod lim now s path mode = Returns (- ENOSPC) s)"
    if "fcard (fmdom (files s)) = NUM_DIR_ENTRIES lim" for path mode now
    using that by (auto simp: fuseMknod_def)
  have rename: "fcard (fmdom (files s')) \<le> fcard (fmdom (files s))"
    if "after (fuseRename s path newpath) = Some s'" for path newpath s'
    using that by (rule fuseRename_card)
  have next_state: "fcard (fmdom (files s')) \<le> NUM_DIR_ENTRIES lim"
    if "exec lim s c = Some s'" for c s'
    using that le by (rule exec_card)
  from le create rename next_state show ?thesis
    by blast
qed

theorem store_capacity_witness:
  "fcard (fmdom (files hello_fs)) = NUM_DIR_ENTRIES small_limits
   \<and> fuseMknod small_limits 3 hello_fs ''/b.txt'' 420 = Returns (- ENOSPC) hello_fs"
proof -
  have full: "fcard (fmdom (files hello_fs)) = NUM_DIR_ENTRIES small_limits"
    by (simp add: hello_fs_def small_limits_def fcard_finsert_if fcard_fempty)
  have short: "length (drop 1 ''/b.txt'') \<le> NAME_LENGTH small_limits"
    by (simp add: small_limits_def)
  have new: "fmlookup (files hello_fs) ''/b.txt'' = None"
    by (simp add: hello_fs_def)
  from store_capacity [OF reachable_hello_fs] full short new
  show ?thesis by blast
qed


end
